theory Spec2Isabelle
  imports Complex_Main
begin

section \<open>Configuration\<close>

text \<open>The configuration constants at the head of \<^verbatim>\<open>webcam.py\<close>.\<close>

definition DEFAULT_FPS :: int where
  "DEFAULT_FPS = 30"

definition BUFFER_SIZE :: nat where
  "BUFFER_SIZE = 2"

section \<open>The bounded queue\<close>

text \<open>
  \<^verbatim>\<open>queue.Queue(maxsize=BUFFER_SIZE)\<close> is a FIFO: \<^verbatim>\<open>put\<close> appends at the back,
  \<^verbatim>\<open>get\<close> removes at the front. Each queue operation is atomic (the queue holds its
  own mutex). The operations the program uses are the non-blocking ones; \<open>None\<close> stands
  for the exception they raise (\<^verbatim>\<open>queue.Empty\<close>, \<^verbatim>\<open>queue.Full\<close>).
\<close>

definition q_full :: "'a list \<Rightarrow> bool" where
  "q_full q = (0 < BUFFER_SIZE \<and> BUFFER_SIZE \<le> length q)"

definition q_empty :: "'a list \<Rightarrow> bool" where
  "q_empty q = (length q = 0)"

fun get_nowait :: "'a list \<Rightarrow> ('a \<times> 'a list) option" where
  "get_nowait [] = None"
| "get_nowait (x # q) = Some (x, q)"

definition put_nowait :: "'a list \<Rightarrow> 'a \<Rightarrow> 'a list option" where
  "put_nowait q x = (if 0 < BUFFER_SIZE \<and> BUFFER_SIZE \<le> length q then None else Some (q @ [x]))"

section \<open>Frames and the device handle\<close>

text \<open>
  A frame is the image \<^verbatim>\<open>cap.read()\<close> returned. The field \<open>origin\<close> is a ghost field:
  the id of the device whose handle produced the image. The program never reads it.
\<close>

record 'i frame =
  origin :: int
  img :: 'i

datatype cap_prop = CAP_PROP_FPS | CAP_PROP_FRAME_WIDTH | CAP_PROP_FRAME_HEIGHT
  | CAP_PROP_BUFFERSIZE | CAP_PROP_FOURCC

text \<open>
  \<^verbatim>\<open>cv2.VideoCapture\<close> is a library object. The model keeps the device it was opened on,
  whether it is open, and the state \<open>hw\<close> of the driver, a deterministic machine of
  any type \<open>'d\<close>: \<open>hw_set\<close> is what a property request does to it, \<open>hw_get\<close> the value it
  reports for a property (a double, here a real: only comparison and truncation are
  applied to it), \<open>hw_read\<close> one blocking read. \<^verbatim>\<open>cap.read()\<close> returns \<^verbatim>\<open>(True, frame)\<close> or
  \<^verbatim>\<open>(False, None)\<close>: \<open>Some frame\<close> and \<open>None\<close> in the model.
\<close>

record ('d, 'i) capture =
  device :: int
  opened :: bool
  hw :: 'd
  hw_set :: "cap_prop \<Rightarrow> real \<Rightarrow> 'd \<Rightarrow> 'd"
  hw_get :: "cap_prop \<Rightarrow> 'd \<Rightarrow> real"
  hw_read :: "'d \<Rightarrow> 'i option \<times> 'd"

definition cap_set :: "cap_prop \<Rightarrow> real \<Rightarrow> ('d, 'i) capture \<Rightarrow> ('d, 'i) capture" where
  "cap_set p v c = (if opened c then c\<lparr>hw := hw_set c p v (hw c)\<rparr> else c)"

definition cap_get :: "cap_prop \<Rightarrow> ('d, 'i) capture \<Rightarrow> real" where
  "cap_get p c = (if opened c then hw_get c p (hw c) else 0)"

definition cap_read :: "('d, 'i) capture \<Rightarrow> 'i option \<times> ('d, 'i) capture" where
  "cap_read c =
     (if opened c then (let (r, h) = hw_read c (hw c) in (r, c\<lparr>hw := h\<rparr>)) else (None, c))"

definition cap_release :: "('d, 'i) capture \<Rightarrow> ('d, 'i) capture" where
  "cap_release c = c\<lparr>opened := False\<rparr>"

section \<open>The streamer\<close>

text \<open>
  The effects of the lifecycle operations are recorded, in the order they happen, in the
  ghost field \<open>effects\<close>.
\<close>

datatype effect = StopRelay | Dequeue | ClearLast | Release int | Open int | StartRelay

text \<open>
  The fields of \<^verbatim>\<open>ThreadedWebcamStreamer\<close>. \<open>capture_thread\<close> is \<open>None\<close> before the first
  thread is created and \<open>Some alive\<close> afterwards.
\<close>

record ('d, 'i) streamer =
  camera_id :: int
  cap :: "('d, 'i) capture option"
  width :: int
  height :: int
  fps :: int
  max_fps :: int
  available_resolutions :: "(nat \<times> nat) list"
  frame_queue :: "'i frame list"
  current_frame :: "'i frame option"
  capture_thread :: "bool option"
  running :: bool
  effects :: "effect list"

datatype error = CouldNotOpen int | CvError | ValueError | KeyError

subsection \<open>The capture loop\<close>

text \<open>
  The publish step of \<^verbatim>\<open>_capture_frames\<close> (lines 95 to 104) is three queue operations:
  \<^verbatim>\<open>full()\<close>, \<^verbatim>\<open>get_nowait()\<close> when it answered yes, \<^verbatim>\<open>put(frame, block=False)\<close>.
  Readers run in other threads, and what they can do to the queue is \<^verbatim>\<open>get_nowait()\<close>;
  \<open>n1\<close> is how many times a reader does so between the first and the second operation
  of the writer, \<open>n2\<close> between the second and the third. The result is the queue and
  whether the frame was stored (\<open>False\<close>: \<^verbatim>\<open>queue.Full\<close> was caught and the frame dropped).
\<close>

definition reader_takes :: "nat \<Rightarrow> 'a list \<Rightarrow> 'a list" where
  "reader_takes n q = drop n q"

definition publish_among :: "nat \<Rightarrow> nat \<Rightarrow> 'a list \<Rightarrow> 'a \<Rightarrow> 'a list \<times> bool" where
  "publish_among n1 n2 q x =
     (let was_full = q_full q;
          q1 = reader_takes n1 q;
          q2 = (if was_full then (case get_nowait q1 of None \<Rightarrow> q1 | Some (_, q') \<Rightarrow> q') else q1);
          q3 = reader_takes n2 q2
      in case put_nowait q3 x of None \<Rightarrow> (q3, False) | Some q4 \<Rightarrow> (q4, True))"

definition publish :: "'a list \<Rightarrow> 'a \<Rightarrow> 'a list" where
  "publish q x = fst (publish_among 0 0 q x)"

text \<open>
  One iteration of the loop of \<^verbatim>\<open>_capture_frames\<close>, run by the capture thread while it
  is alive. When \<open>running\<close> is off the loop ends, and with it the thread.
\<close>

definition capture_iteration :: "('d, 'i) streamer \<Rightarrow> ('d, 'i) streamer" where
  "capture_iteration s =
     (if capture_thread s \<noteq> Some True then s
      else if \<not> running s then s\<lparr>capture_thread := Some False\<rparr>
      else case cap s of
        None \<Rightarrow> s
      | Some c \<Rightarrow>
          if opened c then
            (let (ret, c') = cap_read c;
                 s' = s\<lparr>cap := Some c'\<rparr>
             in case ret of
                  Some im \<Rightarrow>
                    s'\<lparr>frame_queue := publish (frame_queue s) \<lparr>origin = device c, img = im\<rparr>\<rparr>
                | None \<Rightarrow> s')
          else s)"

subsection \<open>The read accessor\<close>

text \<open>
  \<^verbatim>\<open>cv2.imencode\<close> is a library function: it raises \<^verbatim>\<open>cv2.error\<close>, or returns a status
  flag and a buffer. \<^verbatim>\<open>get_frame\<close> takes it as the parameter \<open>imencode\<close>.
\<close>

datatype 'b imencode_result = Raises | Returns bool 'b

definition get_frame ::
  "('i \<Rightarrow> 'b imencode_result) \<Rightarrow> ('d, 'i) streamer \<Rightarrow> (error + 'b option) \<times> ('d, 'i) streamer" where
  "get_frame imencode s =
     (let (frame, s') =
            (case get_nowait (frame_queue s) of
               Some (f, q) \<Rightarrow> (Some f, s\<lparr>frame_queue := q, current_frame := Some f\<rparr>)
             | None \<Rightarrow> (current_frame s, s))
      in case frame of
           Some f \<Rightarrow>
             (case imencode (img f) of
                Raises \<Rightarrow> (Inl CvError, s')
              | Returns _ buffer \<Rightarrow> (Inr (Some buffer), s'))
         | None \<Rightarrow> (Inr None, s'))"

subsection \<open>The environment of an open\<close>

text \<open>
  What the environment answers during one call of \<^verbatim>\<open>open_camera\<close>: whether
  \<^verbatim>\<open>cv2.VideoCapture(id, cv2.CAP_V4L2)\<close> comes back open, the driver of the device, and the
  list \<^verbatim>\<open>get_camera_specs(id)\<close> returns (it runs \<^verbatim>\<open>v4l2-ctl\<close>; a bare \<^verbatim>\<open>except\<close> keeps it
  from raising).
\<close>

record ('d, 'i) world =
  can_open :: "int \<Rightarrow> bool"
  boot :: "int \<Rightarrow> 'd"
  drv_set :: "int \<Rightarrow> cap_prop \<Rightarrow> real \<Rightarrow> 'd \<Rightarrow> 'd"
  drv_get :: "int \<Rightarrow> cap_prop \<Rightarrow> 'd \<Rightarrow> real"
  drv_read :: "int \<Rightarrow> 'd \<Rightarrow> 'i option \<times> 'd"
  get_camera_specs :: "int \<Rightarrow> (nat \<times> nat) list"

definition VideoCapture :: "('d, 'i) world \<Rightarrow> int \<Rightarrow> ('d, 'i) capture" where
  "VideoCapture w n =
     \<lparr>device = n, opened = can_open w n, hw = boot w n,
      hw_set = drv_set w n, hw_get = drv_get w n, hw_read = drv_read w n\<rparr>"

definition MJPG :: real where
  "MJPG = 1196444237"

subsection \<open>Capability probe\<close>

text \<open>Python's \<^verbatim>\<open>int(x)\<close> on a float truncates towards zero.\<close>

definition int_of_float :: "real \<Rightarrow> int" where
  "int_of_float x = (if x < 0 then \<lceil>x\<rceil> else \<lfloor>x\<rfloor>)"

definition fps_to_test :: "int list" where
  "fps_to_test = [60, 45, 36, 30, 25, 20, 15]"

text \<open>The \<^verbatim>\<open>for\<close> loop of \<^verbatim>\<open>detect_camera_capabilities\<close>, with the running maximum.\<close>

fun probe :: "int list \<Rightarrow> ('d, 'i) capture \<Rightarrow> real \<Rightarrow> ('d, 'i) capture \<times> real" where
  "probe [] c m = (c, m)"
| "probe (test_fps # rest) c m =
     (let c' = cap_set CAP_PROP_FPS (of_int test_fps) c;
          actual_fps = cap_get CAP_PROP_FPS c'
      in probe rest c' (if actual_fps > m then actual_fps else m))"

definition detect_camera_capabilities :: "('d, 'i) streamer \<Rightarrow> ('d, 'i) streamer" where
  "detect_camera_capabilities s =
     (case cap s of
        None \<Rightarrow> s
      | Some c \<Rightarrow>
          if \<not> opened c then s
          else (let (c', m) = probe fps_to_test c 15
                in s\<lparr>cap := Some c', max_fps := int_of_float m, fps := int_of_float m\<rparr>))"

subsection \<open>Resolution\<close>

definition set_resolution :: "nat \<Rightarrow> nat \<Rightarrow> ('d, 'i) streamer \<Rightarrow> ('d, 'i) streamer" where
  "set_resolution w h s =
     (case cap s of
        None \<Rightarrow> s
      | Some c \<Rightarrow>
          (let c1 = cap_set CAP_PROP_FOURCC MJPG c;
               c2 = cap_set CAP_PROP_FRAME_WIDTH (of_nat w) c1;
               c3 = cap_set CAP_PROP_FRAME_HEIGHT (of_nat h) c2;
               c4 = cap_set CAP_PROP_FPS (of_int (fps s)) c3;
               c5 = cap_set CAP_PROP_BUFFERSIZE 1 c4;
               (_, c6) = cap_read c5
           in s\<lparr>cap := Some c6,
                width := int_of_float (cap_get CAP_PROP_FRAME_WIDTH c6),
                height := int_of_float (cap_get CAP_PROP_FRAME_HEIGHT c6)\<rparr>))"

subsection \<open>Opening the device\<close>

text \<open>
  \<^verbatim>\<open>open_camera\<close> raises when the new handle is not open; the fields it has assigned
  by then stay assigned, so the state is returned with the error.
\<close>

definition open_camera ::
  "('d, 'i) world \<Rightarrow> ('d, 'i) streamer \<Rightarrow> (error + unit) \<times> ('d, 'i) streamer" where
  "open_camera w s =
     (let s1 = (case cap s of
                  Some old \<Rightarrow> s\<lparr>cap := Some (cap_release old),
                                 effects := effects s @ [Release (device old)]\<rparr>
                | None \<Rightarrow> s);
          c = VideoCapture w (camera_id s1);
          s2 = s1\<lparr>cap := Some c, effects := effects s1 @ [Open (camera_id s1)]\<rparr>
      in if opened c then
           (let c1 = cap_set CAP_PROP_FOURCC MJPG (cap_set CAP_PROP_BUFFERSIZE 1 c);
                s3 = detect_camera_capabilities (s2\<lparr>cap := Some c1\<rparr>);
                s4 = s3\<lparr>available_resolutions := get_camera_specs w (camera_id s3)\<rparr>;
                s5 = (case available_resolutions s4 of
                        [] \<Rightarrow> s4
                      | (max_w, max_h) # _ \<Rightarrow> set_resolution max_w max_h s4)
            in (Inr (),
                s5\<lparr>cap := map_option (cap_set CAP_PROP_FPS (of_int (fps s5))) (cap s5)\<rparr>))
         else (Inl (CouldNotOpen (camera_id s2)), s2))"

subsection \<open>Starting and stopping the capture thread\<close>

text \<open>
  \<^verbatim>\<open>stop_capture_thread\<close> clears \<open>running\<close> and joins the thread for at most two seconds.
  The loop tests \<open>running\<close> at every iteration, an iteration being one read and a sleep
  of \<open>1 / fps\<close> seconds; the model takes the thread to have ended when the join returns.
\<close>

definition stop_capture_thread :: "('d, 'i) streamer \<Rightarrow> ('d, 'i) streamer" where
  "stop_capture_thread s =
     (let s1 = s\<lparr>running := False, effects := effects s @ [StopRelay]\<rparr>
      in case capture_thread s1 of
           Some _ \<Rightarrow> s1\<lparr>capture_thread := Some False\<rparr>
         | None \<Rightarrow> s1)"

definition start_capture_thread :: "('d, 'i) streamer \<Rightarrow> ('d, 'i) streamer" where
  "start_capture_thread s =
     (let s1 = (if capture_thread s = Some True then stop_capture_thread s else s)
      in s1\<lparr>running := True, capture_thread := Some True,
            effects := effects s1 @ [StartRelay]\<rparr>)"

subsection \<open>Construction and device switch\<close>

definition init :: "('d, 'i) world \<Rightarrow> int \<Rightarrow> (error + unit) \<times> ('d, 'i) streamer" where
  "init w cam =
     (let s0 = \<lparr>camera_id = cam, cap = None, width = 640, height = 480,
                fps = DEFAULT_FPS, max_fps = DEFAULT_FPS, available_resolutions = [],
                frame_queue = [], current_frame = None, capture_thread = None,
                running = False, effects = []\<rparr>
      in case open_camera w s0 of
           (Inl e, s1) \<Rightarrow> (Inl e, s1)
         | (Inr _, s1) \<Rightarrow> (Inr (), start_capture_thread s1))"

text \<open>The \<^verbatim>\<open>while not self.frame_queue.empty()\<close> loop of \<^verbatim>\<open>switch_camera\<close>.\<close>

function drain :: "('d, 'i) streamer \<Rightarrow> ('d, 'i) streamer" where
  "drain s =
     (if q_empty (frame_queue s) then s
      else case get_nowait (frame_queue s) of
             None \<Rightarrow> s
           | Some (_, q) \<Rightarrow> drain (s\<lparr>frame_queue := q, effects := effects s @ [Dequeue]\<rparr>))"
  by pat_completeness auto
termination
  by (relation "measure (\<lambda>s. length (frame_queue s))") (auto elim: get_nowait.elims)

declare drain.simps [simp del]

definition switch_camera ::
  "('d, 'i) world \<Rightarrow> int \<Rightarrow> ('d, 'i) streamer \<Rightarrow> (error + bool) \<times> ('d, 'i) streamer" where
  "switch_camera w cam s =
     (let s1 = stop_capture_thread s;
          s2 = s1\<lparr>camera_id := cam\<rparr>;
          s3 = drain s2;
          s4 = s3\<lparr>current_frame := None, effects := effects s3 @ [ClearLast]\<rparr>
      in case open_camera w s4 of
           (Inl e, s5) \<Rightarrow> (Inl e, s5)
         | (Inr _, s5) \<Rightarrow> (Inr True, start_capture_thread s5))"

section \<open>The request handler\<close>

subsection \<open>Strings\<close>

text \<open>
  The library functions \<^verbatim>\<open>do_GET\<close> applies to the request path, on ASCII text: a
  character is a byte here, so the UTF-8 decoding of escapes above \<^verbatim>\<open>%7F\<close> and the
  non-ASCII digits and spaces \<^verbatim>\<open>int\<close> accepts are left out, as is its limit on the
  number of digits.
\<close>

fun startswith :: "string \<Rightarrow> string \<Rightarrow> bool" where
  "startswith s [] = True"
| "startswith [] (p # ps) = False"
| "startswith (c # cs) (p # ps) = (c = p \<and> startswith cs ps)"

text \<open>\<^verbatim>\<open>sub in s\<close>\<close>

fun contains :: "string \<Rightarrow> string \<Rightarrow> bool" where
  "contains sub [] = (sub = [])"
| "contains sub (c # cs) = (startswith (c # cs) sub \<or> contains sub cs)"

text \<open>\<^verbatim>\<open>s.split(sep)\<close> for a separator of one character.\<close>

fun str_split :: "char \<Rightarrow> string \<Rightarrow> string list" where
  "str_split sep [] = [[]]"
| "str_split sep (c # cs) =
     (if c = sep then [] # str_split sep cs
      else (c # hd (str_split sep cs)) # tl (str_split sep cs))"

text \<open>
  \<^verbatim>\<open>urllib.parse.urlparse(path).query\<close> for a path that starts with a single slash (no
  scheme, no network location): the fragment is cut at the first \<^verbatim>\<open>#\<close>, then the query
  is what follows the first \<^verbatim>\<open>?\<close>.
\<close>

definition urlparse_query :: "string \<Rightarrow> string" where
  "urlparse_query url =
     drop 1 (dropWhile (\<lambda>c. c \<noteq> CHR ''?'') (takeWhile (\<lambda>c. c \<noteq> CHR ''#'') url))"

definition hexdig :: "(char \<times> nat) list" where
  "hexdig = zip ''0123456789ABCDEFabcdef'' [0, 1, 2, 3, 4, 5, 6, 7, 8, 9, 10, 11, 12, 13, 14, 15,
     10, 11, 12, 13, 14, 15]"

text \<open>\<^verbatim>\<open>urllib.parse.unquote\<close>: an escape \<^verbatim>\<open>%XX\<close> becomes the character of that code.\<close>

fun unquote :: "string \<Rightarrow> string" where
  "unquote (c # h # l # rest) =
     (if c = CHR ''%'' then
        (case (map_of hexdig h, map_of hexdig l) of
           (Some a, Some b) \<Rightarrow> char_of (16 * a + b) # unquote rest
         | _ \<Rightarrow> c # unquote (h # l # rest))
      else c # unquote (h # l # rest))"
| "unquote s = s"

definition unquote_plus :: "string \<Rightarrow> string" where
  "unquote_plus s = unquote (map (\<lambda>c. if c = CHR ''+'' then CHR '' '' else c) s)"

text \<open>
  \<^verbatim>\<open>urllib.parse.parse_qsl\<close> with its defaults: fields are separated by \<^verbatim>\<open>&\<close>, a field
  is cut at its first \<^verbatim>\<open>=\<close>, and a field with an empty value is skipped.
\<close>

definition parse_field :: "string \<Rightarrow> (string \<times> string) list" where
  "parse_field name_value =
     (let name = takeWhile (\<lambda>c. c \<noteq> CHR ''='') name_value;
          val = drop 1 (dropWhile (\<lambda>c. c \<noteq> CHR ''='') name_value)
      in if name_value \<noteq> [] \<and> val \<noteq> [] then [(unquote_plus name, unquote_plus val)] else [])"

definition parse_qsl :: "string \<Rightarrow> (string \<times> string) list" where
  "parse_qsl qs = (if qs = [] then [] else concat (map parse_field (str_split (CHR ''&'') qs)))"

text \<open>\<^verbatim>\<open>urllib.parse.parse_qs\<close>: the dictionary from each name to the list of its values.\<close>

definition parse_qs :: "string \<Rightarrow> (string \<rightharpoonup> string list)" where
  "parse_qs qs = (\<lambda>k. case map snd (filter (\<lambda>nv. fst nv = k) (parse_qsl qs)) of
                        [] \<Rightarrow> None
                      | vs \<Rightarrow> Some vs)"

text \<open>
  \<^verbatim>\<open>int(s)\<close> on a string: surrounding white space is stripped, one sign may lead, and
  the digits may be grouped by single underscores. \<open>None\<close> is \<^verbatim>\<open>ValueError\<close>.
\<close>

definition is_space :: "char \<Rightarrow> bool" where
  "is_space c = (c \<in> set [CHR '' '', CHR 0x09, CHR 0x0A, CHR 0x0B, CHR 0x0C, CHR 0x0D])"

definition strip :: "string \<Rightarrow> string" where
  "strip s = rev (dropWhile is_space (rev (dropWhile is_space s)))"

definition digit_val :: "char \<Rightarrow> nat option" where
  "digit_val c = map_of (zip ''0123456789'' [0, 1, 2, 3, 4, 5, 6, 7, 8, 9]) c"

fun digits_from :: "nat \<Rightarrow> bool \<Rightarrow> string \<Rightarrow> nat option" where
  "digits_from acc after_digit [] = (if after_digit then Some acc else None)"
| "digits_from acc after_digit (c # cs) =
     (if c = CHR ''_'' then (if after_digit then digits_from acc False cs else None)
      else case digit_val c of
             Some d \<Rightarrow> digits_from (10 * acc + d) True cs
           | None \<Rightarrow> None)"

definition int_of_str :: "string \<Rightarrow> int option" where
  "int_of_str s =
     (case strip s of
        [] \<Rightarrow> None
      | c # cs \<Rightarrow>
          if c = CHR ''-'' then map_option (\<lambda>n. - int n) (digits_from 0 False cs)
          else if c = CHR ''+'' then map_option int (digits_from 0 False cs)
          else map_option int (digits_from 0 False (c # cs)))"

subsection \<open>Dispatch and the camera API\<close>

text \<open>The module's globals: the enumerated cameras (name and path), the id shown as
  current, and the streamer.\<close>

record ('d, 'i) globals =
  cameras :: "int \<rightharpoonup> string \<times> string"
  current_camera :: int
  streamer :: "('d, 'i) streamer"

datatype route = Index | ApiCamera | StreamMjpg | NotFound

text \<open>The conditions of the \<^verbatim>\<open>if\<close>/\<^verbatim>\<open>elif\<close> chain of \<^verbatim>\<open>do_GET\<close>, in its order.\<close>

definition route_of :: "string \<Rightarrow> route" where
  "route_of path =
     (if path = ''/'' then Index
      else if startswith path ''/api/camera'' \<and> contains ''id='' path then ApiCamera
      else if path = ''/stream.mjpg'' then StreamMjpg
      else NotFound)"

text \<open>What the handler has sent: status, content type, body.\<close>

record reply =
  status :: nat
  content_type :: string
  body :: string

definition OK_reply :: reply where
  "OK_reply = \<lparr>status = 200, content_type = ''text/plain'', body = ''OK''\<rparr>"

text \<open>
  The body of the \<^verbatim>\<open>/api/camera\<close> branch (lines 526 to 537). An exception leaves the
  handler before \<^verbatim>\<open>send_response\<close>: nothing has been sent then.
\<close>

definition api_camera ::
  "('d, 'i) world \<Rightarrow> string \<Rightarrow> ('d, 'i) globals \<Rightarrow> (error + reply) \<times> ('d, 'i) globals" where
  "api_camera w path g =
     (let query = urlparse_query path;
          params = parse_qs query
      in case params ''id'' of
           None \<Rightarrow> (Inl KeyError, g)
         | Some vs \<Rightarrow>
             (case int_of_str (hd vs) of
                None \<Rightarrow> (Inl ValueError, g)
              | Some new_camera_id \<Rightarrow>
                  if new_camera_id \<in> dom (cameras g) then
                    (let g1 = g\<lparr>current_camera := new_camera_id\<rparr>
                     in case switch_camera w (current_camera g1) (streamer g1) of
                          (Inl e, s) \<Rightarrow> (Inl e, g1\<lparr>streamer := s\<rparr>)
                        | (Inr _, s) \<Rightarrow> (Inr OK_reply, g1\<lparr>streamer := s\<rparr>))
                  else (Inr OK_reply, g)))"

section \<open>Runs and observations\<close>

text \<open>
  A run of the streamer between two lifecycle operations: the capture thread makes loop
  iterations, the request handler calls \<^verbatim>\<open>get_frame\<close>. \<open>run\<close> collects what the calls of
  \<^verbatim>\<open>get_frame\<close> return, in order.
\<close>

datatype act = Capture | GetFrame

fun run ::
  "('i \<Rightarrow> 'b imencode_result) \<Rightarrow> act list \<Rightarrow> ('d, 'i) streamer
     \<Rightarrow> (error + 'b option) list \<times> ('d, 'i) streamer" where
  "run imencode [] s = ([], s)"
| "run imencode (Capture # as) s = run imencode as (capture_iteration s)"
| "run imencode (GetFrame # as) s =
     (let (r, s1) = get_frame imencode s;
          (rs, s2) = run imencode as s1
      in (r # rs, s2))"

text \<open>What \<^verbatim>\<open>get_frame\<close> returns when the frame it has picked is \<open>f\<close>.\<close>

definition jpeg_of :: "('i \<Rightarrow> 'b imencode_result) \<Rightarrow> 'i frame \<Rightarrow> error + 'b option" where
  "jpeg_of imencode f =
     (case imencode (img f) of Raises \<Rightarrow> Inl CvError | Returns _ buffer \<Rightarrow> Inr (Some buffer))"


definition answer :: "('i \<Rightarrow> 'b imencode_result) \<Rightarrow> 'i frame option \<Rightarrow> error + 'b option" where
  "answer imencode fo = (case fo of Some f \<Rightarrow> jpeg_of imencode f | None \<Rightarrow> Inr None)"



text \<open>The frame rates the device reports during the probe, one for each rate requested.\<close>

fun echoes :: "int list \<Rightarrow> ('d, 'i) capture \<Rightarrow> real list" where
  "echoes [] c = []"
| "echoes (test_fps # rest) c =
     (let c' = cap_set CAP_PROP_FPS (of_int test_fps) c
      in cap_get CAP_PROP_FPS c' # echoes rest c')"

section \<open>Example devices\<close>

text \<open>
  A driver state is the frame rate in force and the number of frames read so far; the
  image of a frame is a hundred times the device id plus the frame's number. Devices 0
  and 2 exist. The first driver accepts a requested rate up to 30 and refuses a higher
  one; the second settles on the requested rate or on 29.97, whichever is lower.
\<close>

definition webcam_world :: "(real \<times> nat, nat) world" where
  "webcam_world =
     \<lparr>can_open = (\<lambda>n. n = 0 \<or> n = 2),
      boot = (\<lambda>n. (30, 0)),
      drv_set = (\<lambda>n p v d. if p = CAP_PROP_FPS \<and> v \<le> 30 then (v, snd d) else d),
      drv_get = (\<lambda>n p d. if p = CAP_PROP_FPS then fst d
                           else if p = CAP_PROP_FRAME_WIDTH then 640
                           else if p = CAP_PROP_FRAME_HEIGHT then 480 else 0),
      drv_read = (\<lambda>n d. (Some (100 * nat n + snd d), (fst d, Suc (snd d)))),
      get_camera_specs = (\<lambda>n. [(640, 480)])\<rparr>"

definition ntsc_world :: "(real \<times> nat, nat) world" where
  "ntsc_world =
     webcam_world\<lparr>drv_set := (\<lambda>n p v d. if p = CAP_PROP_FPS then (min v (2997 / 100), snd d) else d)\<rparr>"

definition jpeg :: "nat \<Rightarrow> nat list imencode_result" where
  "jpeg i = Returns True [i]"


text \<open>The streamer constructed on device 0 of the first world, and the module's globals
  around it with device 0 and device 2 enumerated.\<close>

definition streaming0 :: "(real \<times> nat, nat) streamer" where
  "streaming0 = snd (init webcam_world 0)"

definition ntsc0 :: "(real \<times> nat, nat) streamer" where
  "ntsc0 = snd (init ntsc_world 0)"

definition globals0 :: "(real \<times> nat, nat) globals" where
  "globals0 =
     \<lparr>cameras = [0 \<mapsto> (''Webcam'', ''/dev/video0''), 2 \<mapsto> (''Grabber'', ''/dev/video2'')],
      current_camera = 0, streamer = streaming0\<rparr>"

section \<open>The hand-off queue\<close>

lemma get_nowait_tl: "(case get_nowait q of None \<Rightarrow> q | Some (u, q') \<Rightarrow> q') = tl q"
  by (cases q) simp_all

lemma publish_among_eq:
  assumes "length q \<le> BUFFER_SIZE"
  shows "publish_among n1 n2 q x = (drop (n1 + (if q_full q then 1 else 0) + n2) q @ [x], True)"
proof (cases "q_full q")
  case True
  have "length (drop (n1 + 1 + n2) q) < BUFFER_SIZE"
    using assms True by (auto simp: q_full_def)
  then show ?thesis
    using True
    by (simp add: publish_among_def reader_takes_def get_nowait_tl put_nowait_def
        tl_drop drop_Suc add.commute)
next
  case False
  have "length (drop (n1 + n2) q) < BUFFER_SIZE"
    using assms False by (auto simp: q_full_def BUFFER_SIZE_def)
  then show ?thesis
    using False
    by (simp add: publish_among_def reader_takes_def put_nowait_def add.commute)
qed

lemma publish_eq:
  assumes "length q \<le> BUFFER_SIZE"
  shows "publish q x = (if q_full q then tl q @ [x] else q @ [x])"
  using publish_among_eq [OF assms, of 0 0 x] by (simp add: publish_def drop_Suc)

lemma publish_length:
  assumes "length q \<le> BUFFER_SIZE"
  shows "length (publish q x) \<le> BUFFER_SIZE"
  using assms unfolding publish_eq [OF assms] by (auto simp: q_full_def BUFFER_SIZE_def)

text \<open>
  Claim C4. The publish step of the capture loop never waits and never drops the new
  frame. With at most \<open>BUFFER_SIZE\<close> frames in the queue (the queue's own bound, kept in
  every state the program reaches), and whatever number of frames readers take between the writer's queue operations, the
  \<^verbatim>\<open>put\<close> finds room: the new frame is stored at the back and only frames at the front
  (the oldest) have gone. With no reader in between, a full queue loses exactly its
  oldest frame and a queue that is not full loses none; the bound is kept.
\<close>

theorem publish_overwrites_on_full:
  assumes "length q \<le> BUFFER_SIZE"
  shows "publish_among n1 n2 q x = (drop (n1 + (if q_full q then 1 else 0) + n2) q @ [x], True)
       \<and> publish q x = (if q_full q then tl q @ [x] else q @ [x])
       \<and> length (publish q x) \<le> BUFFER_SIZE"
  using publish_among_eq [OF assms] publish_eq [OF assms] publish_length [OF assms] by blast

theorem publish_overwrites_on_full_witness:
  "publish_among 1 0 [\<lparr>origin = 0, img = 1::nat\<rparr>, \<lparr>origin = 0, img = 2\<rparr>] \<lparr>origin = 0, img = 3\<rparr>
     = ([\<lparr>origin = 0, img = 3\<rparr>], True)
   \<and> publish [\<lparr>origin = 0, img = 1::nat\<rparr>, \<lparr>origin = 0, img = 2\<rparr>] \<lparr>origin = 0, img = 3\<rparr>
     = [\<lparr>origin = 0, img = 2\<rparr>, \<lparr>origin = 0, img = 3\<rparr>]"
  using publish_overwrites_on_full
    [of "[\<lparr>origin = 0, img = 1::nat\<rparr>, \<lparr>origin = 0, img = 2\<rparr>]" 1 0 "\<lparr>origin = 0, img = 3\<rparr>"]
  by (simp add: BUFFER_SIZE_def q_full_def)

section \<open>What the operations keep\<close>

lemma jpeg_of_not_none [simp]: "jpeg_of enc f \<noteq> Inr None"
  by (simp add: jpeg_of_def split: imencode_result.splits)

lemma get_frame_cases:
  "get_frame enc s =
     (case frame_queue s of
        f # q \<Rightarrow> (jpeg_of enc f, s\<lparr>frame_queue := q, current_frame := Some f\<rparr>)
      | [] \<Rightarrow> (answer enc (current_frame s), s))"
  by (simp add: get_frame_def jpeg_of_def answer_def split: list.splits option.splits imencode_result.splits)

lemma get_frame_current:
  "fst (get_frame enc s) = answer enc (current_frame (snd (get_frame enc s)))"
  by (simp add: get_frame_cases answer_def split: list.splits)

lemma get_frame_none:
  "(fst (get_frame enc s) = Inr None) = (frame_queue s = [] \<and> current_frame s = None)"
  by (simp add: get_frame_cases answer_def split: list.splits option.splits)

lemma capture_iteration_current [simp]:
  "current_frame (capture_iteration s) = current_frame s"
  by (simp add: capture_iteration_def Let_def split: option.splits prod.splits)

lemma stop_keeps [simp]:
  "current_frame (stop_capture_thread s) = current_frame s"
  "frame_queue (stop_capture_thread s) = frame_queue s"
  "camera_id (stop_capture_thread s) = camera_id s"
  "cap (stop_capture_thread s) = cap s"
  "running (stop_capture_thread s) = False"
  "capture_thread (stop_capture_thread s) = map_option (\<lambda>_. False) (capture_thread s)"
  "effects (stop_capture_thread s) = effects s @ [StopRelay]"
  by (simp_all add: stop_capture_thread_def Let_def split: option.splits)

lemma start_keeps [simp]:
  "current_frame (start_capture_thread s) = current_frame s"
  "frame_queue (start_capture_thread s) = frame_queue s"
  "camera_id (start_capture_thread s) = camera_id s"
  "cap (start_capture_thread s) = cap s"
  "running (start_capture_thread s) = True"
  "capture_thread (start_capture_thread s) = Some True"
  "effects (start_capture_thread s) =
     effects s @ (if capture_thread s = Some True then [StopRelay] else []) @ [StartRelay]"
  by (simp_all add: start_capture_thread_def Let_def)

lemma cap_set_keeps [simp]:
  "device (cap_set p v c) = device c" "opened (cap_set p v c) = opened c"
  "hw_set (cap_set p v c) = hw_set c" "hw_get (cap_set p v c) = hw_get c"
  "hw_read (cap_set p v c) = hw_read c"
  by (simp_all add: cap_set_def)

lemma cap_read_keeps:
  "cap_read c = (r, c') \<Longrightarrow> device c' = device c \<and> opened c' = opened c \<and> hw_set c' = hw_set c
     \<and> hw_get c' = hw_get c \<and> hw_read c' = hw_read c"
  by (auto simp: cap_read_def Let_def split: if_splits prod.splits)

lemma probe_keeps:
  "probe ts c m = (c', m') \<Longrightarrow> device c' = device c \<and> opened c' = opened c \<and> hw_set c' = hw_set c
     \<and> hw_get c' = hw_get c \<and> hw_read c' = hw_read c"
  by (induction ts arbitrary: c m) (auto simp: Let_def)

lemma detect_keeps [simp]:
  "current_frame (detect_camera_capabilities s) = current_frame s"
  "frame_queue (detect_camera_capabilities s) = frame_queue s"
  "camera_id (detect_camera_capabilities s) = camera_id s"
  "running (detect_camera_capabilities s) = running s"
  "capture_thread (detect_camera_capabilities s) = capture_thread s"
  "effects (detect_camera_capabilities s) = effects s"
  "available_resolutions (detect_camera_capabilities s) = available_resolutions s"
  by (simp_all add: detect_camera_capabilities_def Let_def split: option.splits prod.splits)

lemma detect_cap:
  "cap s = Some c \<Longrightarrow> \<exists>c'. cap (detect_camera_capabilities s) = Some c' \<and> device c' = device c
     \<and> opened c' = opened c"
  by (auto simp: detect_camera_capabilities_def Let_def split: prod.splits dest: probe_keeps)

lemma set_resolution_keeps [simp]:
  "current_frame (set_resolution a b s) = current_frame s"
  "frame_queue (set_resolution a b s) = frame_queue s"
  "camera_id (set_resolution a b s) = camera_id s"
  "running (set_resolution a b s) = running s"
  "capture_thread (set_resolution a b s) = capture_thread s"
  "effects (set_resolution a b s) = effects s"
  "fps (set_resolution a b s) = fps s"
  by (simp_all add: set_resolution_def Let_def split: option.splits prod.splits)

lemma set_resolution_cap:
  "cap s = Some c \<Longrightarrow> \<exists>c'. cap (set_resolution a b s) = Some c' \<and> device c' = device c
     \<and> opened c' = opened c"
  by (auto simp: set_resolution_def Let_def split: prod.splits dest!: cap_read_keeps)


lemma VideoCapture_simps [simp]:
  "device (VideoCapture w n) = n" "opened (VideoCapture w n) = can_open w n"
  by (simp_all add: VideoCapture_def)

lemma open_camera_opened:
  assumes "can_open w (camera_id s)"
  shows "\<exists>s' c. open_camera w s = (Inr (), s') \<and> current_frame s' = current_frame s
     \<and> frame_queue s' = frame_queue s \<and> camera_id s' = camera_id s \<and> running s' = running s
     \<and> capture_thread s' = capture_thread s
     \<and> effects s' = effects s @ (case cap s of Some old \<Rightarrow> [Release (device old)] | None \<Rightarrow> [])
          @ [Open (camera_id s)]
     \<and> cap s' = Some c \<and> device c = camera_id s \<and> opened c"
proof -
  define s1 where "s1 = (case cap s of
                  Some old \<Rightarrow> s\<lparr>cap := Some (cap_release old),
                                 effects := effects s @ [Release (device old)]\<rparr>
                | None \<Rightarrow> s)"
  define c where "c = VideoCapture w (camera_id s1)"
  define s2 where "s2 = s1\<lparr>cap := Some c, effects := effects s1 @ [Open (camera_id s1)]\<rparr>"
  define c1 where "c1 = cap_set CAP_PROP_FOURCC MJPG (cap_set CAP_PROP_BUFFERSIZE 1 c)"
  define s3 where "s3 = detect_camera_capabilities (s2\<lparr>cap := Some c1\<rparr>)"
  define s4 where "s4 = s3\<lparr>available_resolutions := get_camera_specs w (camera_id s3)\<rparr>"
  define s5 where "s5 = (case available_resolutions s4 of
                        [] \<Rightarrow> s4
                      | (max_w, max_h) # _ \<Rightarrow> set_resolution max_w max_h s4)"
  define s6 where "s6 = s5\<lparr>cap := map_option (cap_set CAP_PROP_FPS (of_int (fps s5))) (cap s5)\<rparr>"
  have id1: "camera_id s1 = camera_id s" by (simp add: s1_def split: option.splits)
  have op: "opened c" using assms by (simp add: c_def id1)
  have res: "open_camera w s = (Inr (), s6)"
    using op unfolding open_camera_def Let_def s6_def s5_def s4_def s3_def c1_def s2_def c_def s1_def
    by (simp only: if_True)
  have k1: "current_frame s1 = current_frame s \<and> frame_queue s1 = frame_queue s
      \<and> running s1 = running s \<and> capture_thread s1 = capture_thread s
      \<and> effects s1 = effects s @ (case cap s of Some old \<Rightarrow> [Release (device old)] | None \<Rightarrow> [])"
    by (simp add: s1_def split: option.splits)
  have k3: "current_frame s3 = current_frame s \<and> frame_queue s3 = frame_queue s
      \<and> running s3 = running s \<and> capture_thread s3 = capture_thread s \<and> camera_id s3 = camera_id s
      \<and> effects s3 = effects s1 @ [Open (camera_id s)]"
    using k1 id1 by (simp add: s3_def s2_def)
  have "\<exists>c3. cap s3 = Some c3 \<and> device c3 = device c1 \<and> opened c3 = opened c1"
    unfolding s3_def by (rule detect_cap) simp
  then obtain c3 where c3: "cap s3 = Some c3" "device c3 = camera_id s" "opened c3"
    using op by (auto simp: c1_def c_def id1)
  have k5: "current_frame s5 = current_frame s \<and> frame_queue s5 = frame_queue s
      \<and> running s5 = running s \<and> capture_thread s5 = capture_thread s \<and> camera_id s5 = camera_id s
      \<and> effects s5 = effects s1 @ [Open (camera_id s)]"
    using k3 by (simp add: s5_def s4_def split: list.splits)
  have c4: "cap s4 = Some c3" using c3 by (simp add: s4_def)
  have "\<exists>c5. cap s5 = Some c5 \<and> device c5 = device c3 \<and> opened c5 = opened c3"
    unfolding s5_def using c4 set_resolution_cap [OF c4] by (auto split: list.splits)
  then obtain c5 where c5: "cap s5 = Some c5" "device c5 = camera_id s" "opened c5"
    using c3 by auto
  show ?thesis
    using res k5 k1 c5 by (simp add: s6_def)
qed

lemma open_camera_refused:
  assumes "\<not> can_open w (camera_id s)"
  shows "\<exists>s' c. open_camera w s = (Inl (CouldNotOpen (camera_id s)), s') \<and> current_frame s' = current_frame s
     \<and> frame_queue s' = frame_queue s \<and> camera_id s' = camera_id s \<and> running s' = running s
     \<and> capture_thread s' = capture_thread s
     \<and> effects s' = effects s @ (case cap s of Some old \<Rightarrow> [Release (device old)] | None \<Rightarrow> [])
          @ [Open (camera_id s)]
     \<and> cap s' = Some c \<and> device c = camera_id s \<and> \<not> opened c"
  using assms by (simp add: open_camera_def Let_def split: option.splits)

lemma drain_result:
  "frame_queue (drain s) = [] \<and> effects (drain s) = effects s @ replicate (length (frame_queue s)) Dequeue
   \<and> current_frame (drain s) = current_frame s \<and> camera_id (drain s) = camera_id s
   \<and> cap (drain s) = cap s \<and> running (drain s) = running s
   \<and> capture_thread (drain s) = capture_thread s"
proof (induction s rule: drain.induct)
  case (1 s)
  show ?case
  proof (cases "frame_queue s")
    case Nil
    then show ?thesis by (simp add: drain.simps [of s] q_empty_def)
  next
    case (Cons f q)
    then show ?thesis
      using "1.IH" [of "(f, q)" f q]
      by (simp add: drain.simps [of s] q_empty_def replicate_app_Cons_same)
  qed
qed

lemma init_fresh:
  "current_frame (snd (init w cam)) = None \<and> frame_queue (snd (init w cam)) = []"
proof -
  let ?s0 = "\<lparr>camera_id = cam, cap = None, width = 640, height = 480,
                fps = DEFAULT_FPS, max_fps = DEFAULT_FPS, available_resolutions = [],
                frame_queue = [], current_frame = None, capture_thread = None,
                running = False, effects = []\<rparr>"
  show ?thesis
  proof (cases "can_open w cam")
    case True
    then show ?thesis
      using open_camera_opened [of w ?s0] by (auto simp: init_def)
  next
    case False
    then show ?thesis
      using open_camera_refused [of w ?s0] by (auto simp: init_def)
  qed
qed

lemma switch_fresh:
  "current_frame (snd (switch_camera w cam s)) = None \<and> frame_queue (snd (switch_camera w cam s)) = []"
proof -
  let ?s3 = "drain ((stop_capture_thread s)\<lparr>camera_id := cam\<rparr>)"
  let ?s4 = "?s3\<lparr>current_frame := None, effects := effects ?s3 @ [ClearLast]\<rparr>"
  have q: "frame_queue ?s4 = []" "current_frame ?s4 = None" "camera_id ?s4 = cam"
    using drain_result [of "(stop_capture_thread s)\<lparr>camera_id := cam\<rparr>"] by simp_all
  show ?thesis
  proof (cases "can_open w cam")
    case True
    then show ?thesis
      using open_camera_opened [of w ?s4] q by (auto simp: switch_camera_def Let_def)
  next
    case False
    then show ?thesis
      using open_camera_refused [of w ?s4] q by (auto simp: switch_camera_def Let_def)
  qed
qed

text \<open>
  The bound of the queue holds in every state the program reaches: construction and a
  device switch leave the queue empty, and the capture loop and \<^verbatim>\<open>get_frame\<close> keep the
  bound.
\<close>

lemma capture_iteration_bounded:
  assumes "length (frame_queue s) \<le> BUFFER_SIZE"
  shows "length (frame_queue (capture_iteration s)) \<le> BUFFER_SIZE"
  using assms publish_length [OF assms]
  by (auto simp: capture_iteration_def Let_def split: option.splits prod.splits)

lemma get_frame_bounded:
  assumes "length (frame_queue s) \<le> BUFFER_SIZE"
  shows "length (frame_queue (snd (get_frame enc s))) \<le> BUFFER_SIZE"
  using assms by (cases "frame_queue s") (simp_all add: get_frame_cases)

lemma run_bounded:
  "length (frame_queue s) \<le> BUFFER_SIZE \<Longrightarrow> length (frame_queue (snd (run enc acts s))) \<le> BUFFER_SIZE"
proof (induction acts arbitrary: s)
  case Nil
  then show ?case by simp
next
  case (Cons a acts)
  show ?case
  proof (cases a)
    case Capture
    then show ?thesis
      using Cons.IH [OF capture_iteration_bounded [OF Cons.prems]] by simp
  next
    case GetFrame
    then show ?thesis
      using Cons.IH [OF get_frame_bounded [OF Cons.prems, of enc]]
      by (auto split: prod.splits)
  qed
qed

lemma capture_iteration_publishes:
  assumes "length (frame_queue s) \<le> BUFFER_SIZE" and "capture_thread s = Some True" and "running s"
    and "cap s = Some c" and "opened c" and "fst (cap_read c) = Some im"
  shows "frame_queue (capture_iteration s) =
           (if q_full (frame_queue s) then tl (frame_queue s) else frame_queue s)
             @ [\<lparr>origin = device c, img = im\<rparr>]"
  using assms publish_eq [OF assms(1)]
  by (auto simp: capture_iteration_def Let_def split: prod.splits)

section \<open>The read accessor\<close>

text \<open>
  Claim C1, as the code has it. \<^verbatim>\<open>get_frame\<close> hands out the oldest frame buffered in
  the queue (its head: the queue is a FIFO of \<open>BUFFER_SIZE\<close> frames), removes it and
  makes it the last-known frame; on an empty queue it returns the last-known frame and
  changes nothing. So what a call returns is always the last-known frame it leaves
  behind. It returns none exactly when the queue is empty and there is no last-known
  frame; the capture loop never touches the last-known frame, and construction and a
  device switch both leave the queue empty and the last-known frame cleared.
\<close>

theorem get_frame_hands_out_oldest:
  "get_frame enc s =
     (case frame_queue s of
        f # q \<Rightarrow> (jpeg_of enc f, s\<lparr>frame_queue := q, current_frame := Some f\<rparr>)
      | [] \<Rightarrow> (answer enc (current_frame s), s))
   \<and> fst (get_frame enc s) = answer enc (current_frame (snd (get_frame enc s)))
   \<and> (fst (get_frame enc s) = Inr None) = (frame_queue s = [] \<and> current_frame s = None)
   \<and> current_frame (capture_iteration s) = current_frame s
   \<and> current_frame (snd (switch_camera w cam s)) = None
   \<and> frame_queue (snd (switch_camera w cam s)) = []
   \<and> current_frame (snd (init w cam)) = None
   \<and> frame_queue (snd (init w cam)) = []"
  using get_frame_cases [of enc s] get_frame_current [of enc s] get_frame_none [of enc s]
    switch_fresh [of w cam s] init_fresh [of w cam]
  by simp

text \<open>
  The claim as stated fails: after the capture loop has published frame 1 and then
  frame 2, the queue holds both, and \<^verbatim>\<open>get_frame\<close> returns frame 1, not the most recently
  published frame 2.
\<close>

theorem get_frame_not_most_recent:
  "frame_queue (snd (run jpeg [Capture, Capture] streaming0))
     = [\<lparr>origin = 0, img = 1\<rparr>, \<lparr>origin = 0, img = 2\<rparr>]
   \<and> fst (get_frame jpeg (snd (run jpeg [Capture, Capture] streaming0))) = Inr (Some [1])
   \<and> jpeg_of jpeg \<lparr>origin = 0, img = 2\<rparr> = Inr (Some [2])"
  by code_simp









section \<open>The device switch\<close>

lemma switch_camera_opened:
  assumes "can_open w cam"
  shows "\<exists>s' c. switch_camera w cam s = (Inr True, s') \<and> frame_queue s' = [] \<and> current_frame s' = None
     \<and> camera_id s' = cam \<and> cap s' = Some c \<and> device c = cam \<and> opened c
     \<and> running s' \<and> capture_thread s' = Some True
     \<and> effects s' = effects s @ [StopRelay] @ replicate (length (frame_queue s)) Dequeue @ [ClearLast]
          @ (case cap s of Some old \<Rightarrow> [Release (device old)] | None \<Rightarrow> []) @ [Open cam, StartRelay]"
proof -
  let ?s2 = "(stop_capture_thread s)\<lparr>camera_id := cam\<rparr>"
  let ?s3 = "drain ?s2"
  let ?s4 = "?s3\<lparr>current_frame := None, effects := effects ?s3 @ [ClearLast]\<rparr>"
  have d: "frame_queue ?s3 = []" "effects ?s3 = effects s @ [StopRelay] @ replicate (length (frame_queue s)) Dequeue"
    "camera_id ?s3 = cam" "cap ?s3 = cap s" "capture_thread ?s3 = map_option (\<lambda>_. False) (capture_thread s)"
    using drain_result [of ?s2] by simp_all
  have "can_open w (camera_id ?s4)" using assms d by simp
  from open_camera_opened [OF this] obtain s5 c where
    o: "open_camera w ?s4 = (Inr (), s5)" "current_frame s5 = current_frame ?s4"
      "frame_queue s5 = frame_queue ?s4" "camera_id s5 = camera_id ?s4"
      "capture_thread s5 = capture_thread ?s4"
      "effects s5 = effects ?s4 @ (case cap ?s4 of Some old \<Rightarrow> [Release (device old)] | None \<Rightarrow> [])
          @ [Open (camera_id ?s4)]"
      "cap s5 = Some c" "device c = camera_id ?s4" "opened c"
    by blast
  have nt: "capture_thread s5 \<noteq> Some True"
    using o(5) d(5) by (cases "capture_thread s") simp_all
  have r: "switch_camera w cam s = (Inr True, start_capture_thread s5)"
    using o(1) by (simp add: switch_camera_def Let_def)
  show ?thesis
    using r o d nt by simp
qed

lemma switch_camera_refused:
  assumes "\<not> can_open w cam"
  shows "\<exists>s' c. switch_camera w cam s = (Inl (CouldNotOpen cam), s') \<and> frame_queue s' = []
     \<and> current_frame s' = None
     \<and> camera_id s' = cam \<and> cap s' = Some c \<and> device c = cam \<and> \<not> opened c
     \<and> \<not> running s' \<and> capture_thread s' = map_option (\<lambda>_. False) (capture_thread s)
     \<and> effects s' = effects s @ [StopRelay] @ replicate (length (frame_queue s)) Dequeue @ [ClearLast]
          @ (case cap s of Some old \<Rightarrow> [Release (device old)] | None \<Rightarrow> []) @ [Open cam]"
proof -
  let ?s2 = "(stop_capture_thread s)\<lparr>camera_id := cam\<rparr>"
  let ?s3 = "drain ?s2"
  let ?s4 = "?s3\<lparr>current_frame := None, effects := effects ?s3 @ [ClearLast]\<rparr>"
  have d: "frame_queue ?s3 = []" "effects ?s3 = effects s @ [StopRelay] @ replicate (length (frame_queue s)) Dequeue"
    "camera_id ?s3 = cam" "cap ?s3 = cap s" "capture_thread ?s3 = map_option (\<lambda>_. False) (capture_thread s)"
    "running ?s3 = False"
    using drain_result [of ?s2] by simp_all
  have "\<not> can_open w (camera_id ?s4)" using assms d by simp
  from open_camera_refused [OF this] obtain s5 c where
    o: "open_camera w ?s4 = (Inl (CouldNotOpen (camera_id ?s4)), s5)" "current_frame s5 = current_frame ?s4"
      "frame_queue s5 = frame_queue ?s4" "camera_id s5 = camera_id ?s4" "running s5 = running ?s4"
      "capture_thread s5 = capture_thread ?s4"
      "effects s5 = effects ?s4 @ (case cap ?s4 of Some old \<Rightarrow> [Release (device old)] | None \<Rightarrow> [])
          @ [Open (camera_id ?s4)]"
      "cap s5 = Some c" "device c = camera_id ?s4" "\<not> opened c"
    by blast
  have r: "switch_camera w cam s = (Inl (CouldNotOpen cam), s5)"
    using o(1) d(3) by (simp add: switch_camera_def Let_def)
  show ?thesis
    using r o d by simp
qed










section \<open>The capability probe\<close>

lemma probe_max: "snd (probe ts c m) = Max (insert m (set (echoes ts c)))"
proof (induction ts arbitrary: c m)
  case Nil
  show ?case by simp
next
  case (Cons t ts)
  let ?c = "cap_set CAP_PROP_FPS (of_int t) c"
  let ?a = "cap_get CAP_PROP_FPS ?c"
  have "Max (insert (max m ?a) (set (echoes ts ?c))) = Max (insert m (insert ?a (set (echoes ts ?c))))"
    by (cases "set (echoes ts ?c) = {}") (simp_all add: max.commute max.left_commute max.assoc)
  moreover have "(if ?a > m then ?a else m) = max m ?a"
    by (simp add: max_def)
  ultimately show ?case
    using Cons [of ?c "max m ?a"] by (simp add: Let_def insert_commute)
qed

lemma probe_cap: "fst (probe ts c m) = fold (\<lambda>t. cap_set CAP_PROP_FPS (of_int t)) ts c"
  by (induction ts arbitrary: c m) (simp_all add: Let_def)

lemma detect_fps:
  assumes "cap s = Some c" and "opened c"
  shows "fps (detect_camera_capabilities s) = int_of_float (Max (insert 15 (set (echoes fps_to_test c))))"
    and "max_fps (detect_camera_capabilities s) = int_of_float (Max (insert 15 (set (echoes fps_to_test c))))"
    and "cap (detect_camera_capabilities s) = Some (fold (\<lambda>t. cap_set CAP_PROP_FPS (of_int t)) fps_to_test c)"
  using assms probe_max [of fps_to_test c 15] probe_cap [of fps_to_test c 15]
  by (auto simp: detect_camera_capabilities_def split: prod.splits)

text \<open>
  Claim C7, as the code has it. On an open handle the probe requests the rates 60, 45,
  36, 30, 25, 20, 15 in this order and adopts, as \<open>fps\<close> and as \<open>max_fps\<close>, the integer part
  of the largest rate the device reported back, or of the floor 15 when no reported rate
  exceeds it. In particular, when no reported rate exceeds 30 and 30 is reported, the
  adopted rate is exactly 30, and when no reported rate exceeds the floor, it is 15.
\<close>

theorem probe_adopts_truncated_maximum:
  assumes "cap s = Some c" and "opened c"
  shows "fps_to_test = [60, 45, 36, 30, 25, 20, 15]
       \<and> cap (detect_camera_capabilities s)
           = Some (fold (\<lambda>t. cap_set CAP_PROP_FPS (of_int t)) fps_to_test c)
       \<and> fps (detect_camera_capabilities s)
           = int_of_float (Max (insert 15 (set (echoes fps_to_test c))))
       \<and> max_fps (detect_camera_capabilities s) = fps (detect_camera_capabilities s)
       \<and> ((\<forall>e \<in> set (echoes fps_to_test c). e \<le> 30) \<and> 30 \<in> set (echoes fps_to_test c)
            \<longrightarrow> fps (detect_camera_capabilities s) = 30)
       \<and> ((\<forall>e \<in> set (echoes fps_to_test c). e \<le> 15)
            \<longrightarrow> fps (detect_camera_capabilities s) = 15)"
proof -
  let ?E = "set (echoes fps_to_test c)"
  have m30: "Max (insert 15 ?E) = 30" if "\<forall>e \<in> ?E. e \<le> 30" "30 \<in> ?E"
    using that by (intro Max_eqI) auto
  have m15: "Max (insert 15 ?E) = 15" if "\<forall>e \<in> ?E. e \<le> 15"
    using that by (intro Max_eqI) auto
  have "int_of_float 30 = 30" "int_of_float 15 = 15"
    by (simp_all add: int_of_float_def)
  then show ?thesis
    using detect_fps [OF assms] m30 m15 by (auto simp: fps_to_test_def)
qed

theorem probe_adopts_truncated_maximum_witness:
  "(case cap streaming0 of
      Some c \<Rightarrow> opened c \<and> list_all (\<lambda>e. e \<le> 30) (echoes fps_to_test c) \<and> 30 \<in> set (echoes fps_to_test c)
    | None \<Rightarrow> False)
   \<and> fps (detect_camera_capabilities streaming0) = 30
   \<and> max_fps (detect_camera_capabilities streaming0) = 30"
proof -
  have e: "case cap streaming0 of
      Some c \<Rightarrow> opened c \<and> list_all (\<lambda>e. e \<le> 30) (echoes fps_to_test c) \<and> 30 \<in> set (echoes fps_to_test c)
    | None \<Rightarrow> False"
    by code_simp
  then obtain c where c: "cap streaming0 = Some c" "opened c"
    "\<forall>e \<in> set (echoes fps_to_test c). e \<le> 30" "30 \<in> set (echoes fps_to_test c)"
    by (auto simp: list_all_iff split: option.splits)
  from probe_adopts_truncated_maximum [OF c(1,2)] c(3,4)
  have "fps (detect_camera_capabilities streaming0) = 30"
    "max_fps (detect_camera_capabilities streaming0) = 30"
    by auto
  with e show ?thesis by blast
qed

text \<open>
  The claim as stated fails: a device that settles on 29.97 frames per second reports
  29.97 as its highest rate, and the rate adopted is 29.
\<close>

theorem probe_truncates_fractional_rate:
  "(case cap ntsc0 of
      Some c \<Rightarrow> opened c \<and> Max (set (echoes fps_to_test c)) = 2997 / 100
    | None \<Rightarrow> False)
   \<and> fps (detect_camera_capabilities ntsc0) = 29
   \<and> max_fps (detect_camera_capabilities ntsc0) = 29"
  by code_simp

section \<open>The camera API\<close>

lemma api_camera_cases:
  "api_camera w path g =
     (case parse_qs (urlparse_query path) ''id'' of
        None \<Rightarrow> (Inl KeyError, g)
      | Some vs \<Rightarrow>
          (case int_of_str (hd vs) of
             None \<Rightarrow> (Inl ValueError, g)
           | Some n \<Rightarrow>
               if n \<in> dom (cameras g) then
                 ((if can_open w n then Inr OK_reply else Inl (CouldNotOpen n)),
                  g\<lparr>current_camera := n, streamer := snd (switch_camera w n (streamer g))\<rparr>)
               else (Inr OK_reply, g)))"
proof -
  have "(case switch_camera w n s of (Inl e, s') \<Rightarrow> (Inl e, G s') | (Inr x, s') \<Rightarrow> (Inr OK_reply, G s'))
      = ((if can_open w n then Inr OK_reply else Inl (CouldNotOpen n)), G (snd (switch_camera w n s)))"
    for n s and G :: "('a, 'b) streamer \<Rightarrow> ('a, 'b) globals"
    using switch_camera_opened [of w n s] switch_camera_refused [of w n s]
    by (cases "can_open w n") auto
  then show ?thesis
    by (simp add: api_camera_def Let_def split: option.splits)
qed

lemma parse7:
  "route_of ''/api/camera?id=7'' = ApiCamera"
  "parse_qs (urlparse_query ''/api/camera?id=7'') ''id'' = Some [''7'']"
  "int_of_str (hd [''7'']) = Some 7"
  "route_of ''/api/camera?id=2'' = ApiCamera"
  "parse_qs (urlparse_query ''/api/camera?id=2'') ''id'' = Some [''2'']"
  "int_of_str (hd [''2'']) = Some 2"
  "route_of ''/api/camera?id=abc'' = ApiCamera"
  "parse_qs (urlparse_query ''/api/camera?id=abc'') ''id'' = Some [''abc'']"
  "int_of_str (hd [''abc'']) = None"
  by code_simp+

lemma dom_globals0: "(7::int) \<notin> dom (cameras globals0)" "(2::int) \<in> dom (cameras globals0)"
  by (simp_all add: globals0_def)

text \<open>
  Claim C9, as the code has it. For a request \<^verbatim>\<open>GET /api/camera?id=n\<close> with an integer
  \<open>n\<close>, the handler replies \<^verbatim>\<open>200 OK\<close> with body \<^verbatim>\<open>OK\<close> whenever it replies at all: when
  \<open>n\<close> is an enumerated camera and the switch to it completes, and also when \<open>n\<close> is not
  enumerated, in which case no switch is triggered and the state is left as it was. When
  \<open>n\<close> is enumerated and the device does not open, the switch raises and nothing is sent.
\<close>

theorem api_camera_replies_ok:
  assumes "route_of path = ApiCamera"
    and "parse_qs (urlparse_query path) ''id'' = Some vs" and "int_of_str (hd vs) = Some n"
  shows "fst (api_camera w path g) =
           (if n \<in> dom (cameras g) \<and> \<not> can_open w n then Inl (CouldNotOpen n) else Inr OK_reply)
       \<and> snd (api_camera w path g) =
           (if n \<in> dom (cameras g)
            then g\<lparr>current_camera := n, streamer := snd (switch_camera w n (streamer g))\<rparr>
            else g)"
  using assms by (simp add: api_camera_cases)

theorem api_camera_replies_ok_witness:
  "route_of ''/api/camera?id=2'' = ApiCamera
   \<and> api_camera webcam_world ''/api/camera?id=2'' globals0 =
       (Inr OK_reply,
        globals0\<lparr>current_camera := 2, streamer := snd (switch_camera webcam_world 2 (streamer globals0))\<rparr>)"
proof -
  have "can_open webcam_world 2" by (simp add: webcam_world_def)
  then show ?thesis
    using api_camera_replies_ok [OF parse7(4-6), of webcam_world globals0] dom_globals0 parse7(4)
    by (simp add: prod_eq_iff)
qed

text \<open>
  The claim as stated fails: for the id 7, which is not enumerated, no switch is made
  and the reply is \<^verbatim>\<open>200 OK\<close> with body \<^verbatim>\<open>OK\<close> all the same.
\<close>

theorem api_camera_ok_without_switch:
  "route_of ''/api/camera?id=7'' = ApiCamera
   \<and> 7 \<notin> dom (cameras globals0)
   \<and> api_camera webcam_world ''/api/camera?id=7'' globals0 = (Inr OK_reply, globals0)"
  using parse7(1-3) dom_globals0 by (simp add: api_camera_cases)

text \<open>
  Claim C10. The request \<^verbatim>\<open>/api/camera?id=abc\<close> reaches the camera branch and ends in the
  \<^verbatim>\<open>ValueError\<close> of \<^verbatim>\<open>int\<close>, with nothing sent and nothing changed; and whenever the
  branch does reply, the request carried an \<^verbatim>\<open>id\<close> parameter whose first value \<^verbatim>\<open>int\<close>
  accepts.
\<close>

theorem api_camera_non_integer_id:
  "route_of ''/api/camera?id=abc'' = ApiCamera
   \<and> api_camera w ''/api/camera?id=abc'' g = (Inl ValueError, g)
   \<and> (\<forall>r. fst (api_camera w path g) = Inr r \<longrightarrow>
         (\<exists>vs n. parse_qs (urlparse_query path) ''id'' = Some vs \<and> int_of_str (hd vs) = Some n))"
  using parse7(7-9) by (auto simp: api_camera_cases split: option.splits)

theorem api_camera_non_integer_id_witness:
  "fst (api_camera webcam_world ''/api/camera?id=7'' globals0) = Inr OK_reply
   \<and> (\<exists>vs n. parse_qs (urlparse_query ''/api/camera?id=7'') ''id'' = Some vs
         \<and> int_of_str (hd vs) = Some n)"
proof -
  have a: "fst (api_camera webcam_world ''/api/camera?id=7'' globals0) = Inr OK_reply"
    using parse7(1-3) dom_globals0 by (simp add: api_camera_cases)
  then show ?thesis
    using api_camera_non_integer_id [of webcam_world globals0 "''/api/camera?id=7''"] by blast
qed

end
